theory Spec2Isabelle
  imports Complex_Main
begin

section \<open>Calendar dates\<close>

text \<open>
  The engine works on \<open>pd.Timestamp\<close> values that carry calendar dates.  A date is the
  triple the code reads through \<open>.year\<close>, \<open>.month\<close> and \<open>.day\<close>.  Amounts are Python
  floats in the source; here they are exact reals, and \<open>round(x, 2)\<close> is rounding to
  the nearest hundredth with ties to even.
\<close>

record date =
  year :: int
  month :: int
  day :: int

definition is_leap :: "int \<Rightarrow> bool" where
  "is_leap y \<longleftrightarrow> y mod 4 = 0 \<and> (y mod 100 \<noteq> 0 \<or> y mod 400 = 0)"

text \<open>\<open>calendar.monthrange(year, month)[1]\<close>: the number of days of a month.\<close>

definition monthrange_days :: "int \<Rightarrow> int \<Rightarrow> int" where
  "monthrange_days y m =
     (if m = 2 then (if is_leap y then 29 else 28)
      else if m = 4 \<or> m = 6 \<or> m = 9 \<or> m = 11 then 30 else 31)"

definition valid_date :: "date \<Rightarrow> bool" where
  "valid_date d \<longleftrightarrow>
     1 \<le> month d \<and> month d \<le> 12 \<and> 1 \<le> day d \<and> day d \<le> monthrange_days (year d) (month d)"

text \<open>Comparison of timestamps: lexicographic on year, month, day.\<close>

definition date_lt :: "date \<Rightarrow> date \<Rightarrow> bool" where
  "date_lt a b \<longleftrightarrow>
     year a < year b \<or>
     (year a = year b \<and> (month a < month b \<or> (month a = month b \<and> day a < day b)))"

definition date_le :: "date \<Rightarrow> date \<Rightarrow> bool" where
  "date_le a b \<longleftrightarrow>
     year a < year b \<or>
     (year a = year b \<and> (month a < month b \<or> (month a = month b \<and> day a \<le> day b)))"

text \<open>Day numbers, as \<open>datetime.toordinal\<close> computes them; \<open>(a - b).days\<close> is their difference.\<close>

definition days_before_year :: "int \<Rightarrow> int" where
  "days_before_year y = (let y1 = y - 1 in y1 * 365 + y1 div 4 - y1 div 100 + y1 div 400)"

definition DAYS_BEFORE_MONTH :: "int list" where
  "DAYS_BEFORE_MONTH = [0, 0, 31, 59, 90, 120, 151, 181, 212, 243, 273, 304, 334]"

definition days_before_month :: "int \<Rightarrow> int \<Rightarrow> int" where
  "days_before_month y m =
     DAYS_BEFORE_MONTH ! nat m + (if m > 2 \<and> is_leap y then 1 else 0)"

definition toordinal :: "date \<Rightarrow> int" where
  "toordinal d = days_before_year (year d) + days_before_month (year d) (month d) + day d"

definition days_between :: "date \<Rightarrow> date \<Rightarrow> int" where
  "days_between a b = toordinal a - toordinal b"

definition months_between :: "date \<Rightarrow> date \<Rightarrow> int" where
  "months_between a b = (year a - year b) * 12 + (month a - month b)"

section \<open>Payment dates\<close>

text \<open>
  \<open>month += 1; if month > 12: month = 1; year += 1\<close>, which the generator does once
  before its loop and once at the end of every round.
\<close>

definition next_month :: "int \<times> int \<Rightarrow> int \<times> int" where
  "next_month ym = (case ym of (y, m) \<Rightarrow> if m + 1 > 12 then (y + 1, 1) else (y, m + 1))"

text \<open>
  The \<open>while True\<close> loop of \<open>generate_payment_dates\<close>, with the list of dates it appends
  to returned in order.  It stops at the first candidate after \<open>end_date\<close>.
\<close>

function gen_loop :: "int \<Rightarrow> date \<Rightarrow> int \<Rightarrow> int \<Rightarrow> date list" where
  "gen_loop anchor_day end_d y m =
     (if date_lt end_d \<lparr>year = y, month = m, day = min anchor_day (monthrange_days y m)\<rparr>
      then []
      else \<lparr>year = y, month = m, day = min anchor_day (monthrange_days y m)\<rparr>
           # gen_loop anchor_day end_d (fst (next_month (y, m))) (snd (next_month (y, m))))"
  by pat_completeness auto
termination
  by (relation "measures [\<lambda>(a, e, y, m). nat (year e - y + 1), \<lambda>(a, e, y, m). nat (13 - m)]")
     (auto simp: date_lt_def next_month_def)

declare gen_loop.simps [simp del]

definition generate_payment_dates :: "date \<Rightarrow> date \<Rightarrow> date list" where
  "generate_payment_dates reporting_d end_d =
     (let anchor_day = day end_d;
          ym = (if day reporting_d \<ge> anchor_day
                then next_month (year reporting_d, month reporting_d)
                else (year reporting_d, month reporting_d))
      in gen_loop anchor_day end_d (fst ym) (snd ym))"

section \<open>Properties of the payment dates\<close>

lemma not_date_lt_iff: "\<not> date_lt a b \<longleftrightarrow> date_le b a"
  by (auto simp: date_lt_def date_le_def)

lemma gen_loop_day:
  "d \<in> set (gen_loop a e y m) \<Longrightarrow> day d = min a (monthrange_days (year d) (month d))"
proof (induction a e y m rule: gen_loop.induct)
  case (1 a e y m)
  then show ?case
    by (subst (asm) (2) gen_loop.simps) (auto split: if_splits)
qed

lemma gen_loop_le_end: "d \<in> set (gen_loop a e y m) \<Longrightarrow> date_le d e"
proof (induction a e y m rule: gen_loop.induct)
  case (1 a e y m)
  then show ?case
    by (subst (asm) (2) gen_loop.simps) (auto split: if_splits simp: not_date_lt_iff)
qed

lemma gen_loop_hd:
  "gen_loop a e y m \<noteq> [] \<Longrightarrow> year (hd (gen_loop a e y m)) = y \<and> month (hd (gen_loop a e y m)) = m"
  by (subst (asm) gen_loop.simps, subst gen_loop.simps, subst (2) gen_loop.simps)
     (auto split: if_splits)

lemma next_month_range:
  "1 \<le> m \<Longrightarrow> m \<le> 12 \<Longrightarrow> 1 \<le> snd (next_month (y, m)) \<and> snd (next_month (y, m)) \<le> 12"
  by (auto simp: next_month_def)

lemma gen_loop_index:
  "d \<in> set (gen_loop a e y m) \<Longrightarrow> 1 \<le> m \<Longrightarrow> m \<le> 12 \<Longrightarrow>
     1 \<le> month d \<and> month d \<le> 12 \<and> y * 12 + m \<le> year d * 12 + month d"
proof (induction a e y m rule: gen_loop.induct)
  case (1 a e y m)
  from "1.prems"(1) show ?case
  proof (subst (asm) gen_loop.simps, simp split: if_splits, elim disjE)
    assume "d = \<lparr>year = y, month = m, day = min a (monthrange_days y m)\<rparr>"
    with "1.prems" show ?thesis by simp
  next
    assume nl: "\<not> date_lt e \<lparr>year = y, month = m, day = min a (monthrange_days y m)\<rparr>"
      and mem: "d \<in> set (gen_loop a e (fst (next_month (y, m))) (snd (next_month (y, m))))"
    have "1 \<le> month d \<and> month d \<le> 12 \<and>
          fst (next_month (y, m)) * 12 + snd (next_month (y, m)) \<le> year d * 12 + month d"
      using "1.IH"[OF nl mem] next_month_range[of m y] "1.prems" by simp
    moreover have "fst (next_month (y, m)) * 12 + snd (next_month (y, m)) = y * 12 + m + 1"
      using "1.prems" by (auto simp: next_month_def)
    ultimately show ?thesis by simp
  qed
qed

lemma index_date_lt:
  "1 \<le> month p \<Longrightarrow> month p \<le> 12 \<Longrightarrow> 1 \<le> month q \<Longrightarrow> month q \<le> 12 \<Longrightarrow>
   year p * 12 + month p < year q * 12 + month q \<Longrightarrow> date_lt p q"
  by (auto simp: date_lt_def)

lemma gen_loop_sorted:
  "1 \<le> m \<Longrightarrow> m \<le> 12 \<Longrightarrow> sorted_wrt date_lt (gen_loop a e y m)"
proof (induction a e y m rule: gen_loop.induct)
  case (1 a e y m)
  let ?d = "\<lparr>year = y, month = m, day = min a (monthrange_days y m)\<rparr>"
  let ?y' = "fst (next_month (y, m))" and ?m' = "snd (next_month (y, m))"
  show ?case
  proof (cases "date_lt e ?d")
    case True
    then show ?thesis by (subst gen_loop.simps) simp
  next
    case False
    have rng: "1 \<le> ?m' \<and> ?m' \<le> 12" using next_month_range "1.prems" by simp
    have idx: "?y' * 12 + ?m' = y * 12 + m + 1"
      using "1.prems" by (auto simp: next_month_def)
    have tail: "sorted_wrt date_lt (gen_loop a e ?y' ?m')"
      using "1.IH"[OF False] rng by simp
    have "date_lt ?d q" if "q \<in> set (gen_loop a e ?y' ?m')" for q
    proof -
      have "1 \<le> month q \<and> month q \<le> 12 \<and> ?y' * 12 + ?m' \<le> year q * 12 + month q"
        using gen_loop_index[OF that] rng by simp
      then show ?thesis using idx "1.prems" by (intro index_date_lt) simp_all
    qed
    with tail False show ?thesis by (subst gen_loop.simps) simp
  qed
qed

lemma gen_loop_monthly:
  "1 \<le> m \<Longrightarrow> m \<le> 12 \<Longrightarrow>
   successively (\<lambda>p q. months_between q p = 1) (gen_loop a e y m)"
proof (induction a e y m rule: gen_loop.induct)
  case (1 a e y m)
  let ?d = "\<lparr>year = y, month = m, day = min a (monthrange_days y m)\<rparr>"
  let ?y' = "fst (next_month (y, m))" and ?m' = "snd (next_month (y, m))"
  show ?case
  proof (cases "date_lt e ?d")
    case True
    then show ?thesis by (subst gen_loop.simps) simp
  next
    case False
    have rng: "1 \<le> ?m' \<and> ?m' \<le> 12" using next_month_range "1.prems" by simp
    have idx: "?y' * 12 + ?m' = y * 12 + m + 1"
      using "1.prems" by (auto simp: next_month_def)
    have tail: "successively (\<lambda>p q. months_between q p = 1) (gen_loop a e ?y' ?m')"
      using "1.IH"[OF False] rng by simp
    have step: "months_between (hd (gen_loop a e ?y' ?m')) ?d = 1"
      if "gen_loop a e ?y' ?m' \<noteq> []"
      using gen_loop_hd[OF that] idx by (simp add: months_between_def)
    show ?thesis
    proof (cases "gen_loop a e ?y' ?m'")
      case Nil
      with False show ?thesis by (subst gen_loop.simps) simp
    next
      case (Cons q qs)
      with step have "months_between q ?d = 1" by simp
      with tail Cons False show ?thesis by (subst gen_loop.simps) simp
    qed
  qed
qed

text \<open>
  C2.  For valid calendar dates, every generated date has the day
  \<open>min(end_date.day, days of its month)\<close>; the dates are strictly increasing and each
  is one calendar month after the one before; none is after \<open>end_date\<close>; and the first
  one lies in the month after the reporting date's (with the year carried over after
  December) when \<open>reporting_date.day \<ge> end_date.day\<close>, else in the reporting date's month.
\<close>

theorem payment_dates_cadence:
  assumes "valid_date reporting_d" and "valid_date end_d"
  shows "(\<forall>d \<in> set (generate_payment_dates reporting_d end_d).
            day d = min (day end_d) (monthrange_days (year d) (month d)))
       \<and> sorted_wrt date_lt (generate_payment_dates reporting_d end_d)
       \<and> successively (\<lambda>p q. months_between q p = 1) (generate_payment_dates reporting_d end_d)
       \<and> (\<forall>d \<in> set (generate_payment_dates reporting_d end_d). date_le d end_d)
       \<and> (generate_payment_dates reporting_d end_d \<noteq> [] \<longrightarrow>
            month (hd (generate_payment_dates reporting_d end_d)) =
              (if day reporting_d \<ge> day end_d
               then (if month reporting_d = 12 then 1 else month reporting_d + 1)
               else month reporting_d)
          \<and> year (hd (generate_payment_dates reporting_d end_d)) =
              (if day reporting_d \<ge> day end_d \<and> month reporting_d = 12
               then year reporting_d + 1 else year reporting_d))"
proof -
  define ym where "ym = (if day reporting_d \<ge> day end_d
                then next_month (year reporting_d, month reporting_d)
                else (year reporting_d, month reporting_d))"
  have gen: "generate_payment_dates reporting_d end_d = gen_loop (day end_d) end_d (fst ym) (snd ym)"
    by (simp add: generate_payment_dates_def ym_def Let_def)
  have rng: "1 \<le> snd ym" "snd ym \<le> 12"
    using assms(1) by (auto simp: ym_def valid_date_def next_month_def)
  have first: "snd ym = (if day reporting_d \<ge> day end_d
               then (if month reporting_d = 12 then 1 else month reporting_d + 1)
               else month reporting_d)"
      "fst ym = (if day reporting_d \<ge> day end_d \<and> month reporting_d = 12
               then year reporting_d + 1 else year reporting_d)"
    using assms(1) by (auto simp: ym_def valid_date_def next_month_def)
  have "\<forall>d \<in> set (generate_payment_dates reporting_d end_d).
            day d = min (day end_d) (monthrange_days (year d) (month d))"
    unfolding gen using gen_loop_day by blast
  moreover have "sorted_wrt date_lt (generate_payment_dates reporting_d end_d)"
    unfolding gen using gen_loop_sorted rng by blast
  moreover have "successively (\<lambda>p q. months_between q p = 1) (generate_payment_dates reporting_d end_d)"
    unfolding gen using gen_loop_monthly rng by blast
  moreover have "\<forall>d \<in> set (generate_payment_dates reporting_d end_d). date_le d end_d"
    unfolding gen using gen_loop_le_end by blast
  moreover have "generate_payment_dates reporting_d end_d \<noteq> [] \<longrightarrow>
            month (hd (generate_payment_dates reporting_d end_d)) =
              (if day reporting_d \<ge> day end_d
               then (if month reporting_d = 12 then 1 else month reporting_d + 1)
               else month reporting_d)
          \<and> year (hd (generate_payment_dates reporting_d end_d)) =
              (if day reporting_d \<ge> day end_d \<and> month reporting_d = 12
               then year reporting_d + 1 else year reporting_d)"
  proof (intro impI)
    assume "generate_payment_dates reporting_d end_d \<noteq> []"
    then have ne: "gen_loop (day end_d) end_d (fst ym) (snd ym) \<noteq> []"
      by (simp add: gen)
    have "month (hd (generate_payment_dates reporting_d end_d)) = snd ym"
      and "year (hd (generate_payment_dates reporting_d end_d)) = fst ym"
      using gen_loop_hd[OF ne] by (simp_all add: gen)
    then show "month (hd (generate_payment_dates reporting_d end_d)) =
              (if day reporting_d \<ge> day end_d
               then (if month reporting_d = 12 then 1 else month reporting_d + 1)
               else month reporting_d)
          \<and> year (hd (generate_payment_dates reporting_d end_d)) =
              (if day reporting_d \<ge> day end_d \<and> month reporting_d = 12
               then year reporting_d + 1 else year reporting_d)"
      using first by simp
  qed
  ultimately show ?thesis by blast
qed

lemma eval_dates_clamped:
  "generate_payment_dates \<lparr>year = 2023, month = 12, day = 31\<rparr> \<lparr>year = 2024, month = 3, day = 30\<rparr>
     = [\<lparr>year = 2024, month = 1, day = 30\<rparr>, \<lparr>year = 2024, month = 2, day = 29\<rparr>,
        \<lparr>year = 2024, month = 3, day = 30\<rparr>]"
  by (simp add: generate_payment_dates_def gen_loop.simps next_month_def monthrange_days_def
      is_leap_def date_lt_def)

theorem payment_dates_cadence_witness:
  "valid_date \<lparr>year = 2023, month = 12, day = 31\<rparr>
   \<and> valid_date \<lparr>year = 2024, month = 3, day = 30\<rparr>
   \<and> generate_payment_dates \<lparr>year = 2023, month = 12, day = 31\<rparr>
        \<lparr>year = 2024, month = 3, day = 30\<rparr> \<noteq> []
   \<and> sorted_wrt date_lt (generate_payment_dates \<lparr>year = 2023, month = 12, day = 31\<rparr>
        \<lparr>year = 2024, month = 3, day = 30\<rparr>)
   \<and> list_all (\<lambda>d. date_le d \<lparr>year = 2024, month = 3, day = 30\<rparr>
                  \<and> day d = min 30 (monthrange_days (year d) (month d)))
        (generate_payment_dates \<lparr>year = 2023, month = 12, day = 31\<rparr>
           \<lparr>year = 2024, month = 3, day = 30\<rparr>)
   \<and> month (hd (generate_payment_dates \<lparr>year = 2023, month = 12, day = 31\<rparr>
        \<lparr>year = 2024, month = 3, day = 30\<rparr>)) = 1
   \<and> year (hd (generate_payment_dates \<lparr>year = 2023, month = 12, day = 31\<rparr>
        \<lparr>year = 2024, month = 3, day = 30\<rparr>)) = 2024"
proof -
  have v1: "valid_date \<lparr>year = 2023, month = 12, day = 31\<rparr>"
    by (simp add: valid_date_def monthrange_days_def)
  have v2: "valid_date \<lparr>year = 2024, month = 3, day = 30\<rparr>"
    by (simp add: valid_date_def monthrange_days_def)
  have ne: "generate_payment_dates \<lparr>year = 2023, month = 12, day = 31\<rparr>
        \<lparr>year = 2024, month = 3, day = 30\<rparr> \<noteq> []"
    by (simp add: eval_dates_clamped)
  show ?thesis
    using payment_dates_cadence[OF v1 v2] v1 v2 ne
    by (simp add: list_all_iff)
qed

section \<open>The amortization schedule\<close>

text \<open>
  \<open>round(x, 2)\<close>: the nearest multiple of one hundredth, a tie going to the even one.
  On floats an exact decimal tie is rare, few decimals being exact in binary; none of the
  examples below has one.
\<close>

definition round2 :: "real \<Rightarrow> real" where
  "round2 x =
     (let y = x * 100; f = \<lfloor>y\<rfloor>; d = y - of_int f
      in (if d < 1 / 2 then of_int f
          else if d > 1 / 2 then of_int (f + 1)
          else if even f then of_int f else of_int (f + 1)) / 100)"

text \<open>\<open>str.lower\<close> on the ASCII letters; every other character is kept.\<close>

definition lower_char :: "char \<Rightarrow> char" where
  "lower_char c =
     (case map_of (zip ''ABCDEFGHIJKLMNOPQRSTUVWXYZ'' ''abcdefghijklmnopqrstuvwxyz'') c of
        Some l \<Rightarrow> l
      | None \<Rightarrow> c)"

definition str_lower :: "string \<Rightarrow> string" where
  "str_lower s = map lower_char s"

text \<open>
  The fields of \<open>Loan\<close> that the engine reads.  The field \<open>method\<close> is called
  \<open>loan_method\<close> here.  The source raises \<open>ValueError\<close> with two messages; they are
  the two errors \<open>InvalidMethod\<close> and \<open>InvalidInstallmentFlag\<close>.
\<close>

record loan =
  reporting_date :: date
  end_date :: date
  outstanding :: real
  interest_rate :: real
  installment :: string
  loan_method :: string

record row =
  period :: nat
  payment_date :: date
  payment :: real
  principal :: real
  interest :: real
  remaining_balance :: real

datatype error = InvalidMethod | InvalidInstallmentFlag | ZeroDivisionError | InvalidBucketType

text \<open>
  \<open>numpy_financial.pmt(rate, nper, pv)\<close> with its defaults \<open>fv = 0\<close> and payments at the
  end of each period.
\<close>

definition npf_pmt :: "real \<Rightarrow> nat \<Rightarrow> real \<Rightarrow> real" where
  "npf_pmt rate nper pv =
     (let temp = (1 + rate) ^ nper;
          fact = (if rate = 0 then real nper else (temp - 1) / rate)
      in - (0 + pv * temp) / fact)"

text \<open>The three \<open>for i, pay_date in enumerate(payment_dates, start=1)\<close> loops.\<close>

fun bullet_rows :: "real \<Rightarrow> real \<Rightarrow> nat \<Rightarrow> real \<Rightarrow> nat \<Rightarrow> date list \<Rightarrow> row list" where
  "bullet_rows princ monthly_interest periods balance i [] = []"
| "bullet_rows princ monthly_interest periods balance i (pay_date # ds) =
     (let principal_payment = (if i = periods then princ else 0);
          intr = monthly_interest;
          pay = principal_payment + intr;
          balance' = balance - principal_payment
      in \<lparr>period = i, payment_date = pay_date, payment = round2 pay,
          principal = round2 principal_payment, interest = round2 intr,
          remaining_balance = round2 (max balance' 0)\<rparr>
         # bullet_rows princ monthly_interest periods balance' (i + 1) ds)"

fun annuity_rows :: "real \<Rightarrow> real \<Rightarrow> real \<Rightarrow> nat \<Rightarrow> date list \<Rightarrow> row list" where
  "annuity_rows r pmt balance i [] = []"
| "annuity_rows r pmt balance i (pay_date # ds) =
     (let intr = balance * r;
          principal_payment = pmt - intr;
          balance' = balance - principal_payment
      in \<lparr>period = i, payment_date = pay_date, payment = round2 pmt,
          principal = round2 principal_payment, interest = round2 intr,
          remaining_balance = round2 (max balance' 0)\<rparr>
         # annuity_rows r pmt balance' (i + 1) ds)"

fun flat_rows :: "real \<Rightarrow> real \<Rightarrow> real \<Rightarrow> real \<Rightarrow> nat \<Rightarrow> date list \<Rightarrow> row list" where
  "flat_rows monthly_principal monthly_interest pay balance i [] = []"
| "flat_rows monthly_principal monthly_interest pay balance i (pay_date # ds) =
     (let balance' = balance - monthly_principal
      in \<lparr>period = i, payment_date = pay_date, payment = round2 pay,
          principal = round2 monthly_principal, interest = round2 monthly_interest,
          remaining_balance = round2 (max balance' 0)\<rparr>
         # flat_rows monthly_principal monthly_interest pay balance' (i + 1) ds)"

text \<open>
  \<open>Amortization.schedule\<close>.  The result is the list of the rows of the data frame, or
  the error raised.  A division by \<open>periods = 0\<close> is \<open>ZeroDivisionError\<close>.
\<close>

definition schedule :: "loan \<Rightarrow> error + row list" where
  "schedule L =
     (let princ = outstanding L;
          annual_rate = interest_rate L;
          meth = str_lower (loan_method L);
          inst = str_lower (installment L);
          payment_dates = generate_payment_dates (reporting_date L) (end_date L);
          periods = length payment_dates
      in if date_le (end_date L) (reporting_date L) then Inr []
         else
           (let r = annual_rate / 12; balance = princ
            in if inst = ''no'' then
                 Inr (bullet_rows princ (princ * r) periods balance 1 payment_dates)
               else if inst = ''yes'' then
                 (if meth = ''annuity'' then
                    (if r \<noteq> 0
                     then Inr (annuity_rows r (npf_pmt r periods (- princ)) balance 1 payment_dates)
                     else if periods = 0 then Inl ZeroDivisionError
                     else Inr (annuity_rows r (princ / real periods) balance 1 payment_dates))
                  else if meth = ''flat'' then
                    (if periods = 0 then Inl ZeroDivisionError
                     else Inr (flat_rows (princ / real periods) (princ * r)
                                 (princ / real periods + princ * r) balance 1 payment_dates))
                  else Inl InvalidMethod)
               else Inl InvalidInstallmentFlag))"

section \<open>Properties of the schedule\<close>



lemma length_bullet_rows [simp]: "length (bullet_rows P mi N b i ds) = length ds"
  by (induction ds arbitrary: b i) (simp_all add: Let_def)

lemma length_annuity_rows [simp]: "length (annuity_rows r pmt b i ds) = length ds"
  by (induction ds arbitrary: b i) (simp_all add: Let_def)

lemma length_flat_rows [simp]: "length (flat_rows mp mi pay b i ds) = length ds"
  by (induction ds arbitrary: b i) (simp_all add: Let_def)

lemma payment_date_bullet_rows [simp]: "map payment_date (bullet_rows P mi N b i ds) = ds"
  by (induction ds arbitrary: b i) (simp_all add: Let_def)

lemma payment_date_annuity_rows [simp]: "map payment_date (annuity_rows r pmt b i ds) = ds"
  by (induction ds arbitrary: b i) (simp_all add: Let_def)

lemma payment_date_flat_rows [simp]: "map payment_date (flat_rows mp mi pay b i ds) = ds"
  by (induction ds arbitrary: b i) (simp_all add: Let_def)



definition rows_of :: "error + row list \<Rightarrow> row list" where
  "rows_of res = (case res of Inl e \<Rightarrow> [] | Inr rows \<Rightarrow> rows)"





lemmas eval_dates = generate_payment_dates_def gen_loop.simps next_month_def monthrange_days_def
  is_leap_def date_lt_def date_le_def Let_def

lemmas eval_schedule = schedule_def str_lower_def lower_char_def round2_def rows_of_def

lemma round2_0 [simp]: "round2 0 = 0"
  by (simp add: round2_def)





















definition annuity_example :: loan where
  "annuity_example =
     \<lparr>reporting_date = \<lparr>year = 2024, month = 1, day = 1\<rparr>,
      end_date = \<lparr>year = 2024, month = 4, day = 1\<rparr>,
      outstanding = 100, interest_rate = 1 / 10,
      installment = ''yes'', loan_method = ''annuity''\<rparr>"




lemma eval_annuity_example:
  "schedule annuity_example =
     Inr [\<lparr>period = 1, payment_date = \<lparr>year = 2024, month = 2, day = 1\<rparr>,
           payment = 3389 / 100, principal = 1653 / 50, interest = 83 / 100,
           remaining_balance = 3347 / 50\<rparr>,
          \<lparr>period = 2, payment_date = \<lparr>year = 2024, month = 3, day = 1\<rparr>,
           payment = 3389 / 100, principal = 3333 / 100, interest = 14 / 25,
           remaining_balance = 3361 / 100\<rparr>,
          \<lparr>period = 3, payment_date = \<lparr>year = 2024, month = 4, day = 1\<rparr>,
           payment = 3389 / 100, principal = 3361 / 100, interest = 7 / 25,
           remaining_balance = 0\<rparr>]"
  by (simp add: annuity_example_def eval_dates eval_schedule npf_pmt_def)


lemma schedule_empty_range:
  "date_le (end_date L) (reporting_date L) \<Longrightarrow> schedule L = Inr []"
  by (simp add: schedule_def Let_def)






section \<open>Maturity buckets\<close>

text \<open>
  The labels are byte strings; the sign for "less than or equal" (U+2264) is its three
  UTF-8 bytes.
\<close>

definition le_sign :: string where
  "le_sign = [CHR 0xE2, CHR 0x89, CHR 0xA4]"

definition LABEL_1M :: string where
  "LABEL_1M = le_sign @ '' 1 bulan''"

definition LABEL_LE30D :: string where
  "LABEL_LE30D = le_sign @ ''30D''"

definition LABEL_GT30D :: string where
  "LABEL_GT30D = ''>30D''"

text \<open>A bin edge: an integer, or \<open>np.inf\<close>.\<close>

datatype edge = Edge int | Infinity

definition MONTH_EDGES :: "edge list" where
  "MONTH_EDGES =
     [Edge 1, Edge 3, Edge 6, Edge 9, Edge 12, Edge 18, Edge 24, Edge 36, Edge 48, Edge 60,
      Edge 72, Edge 84, Edge 96, Edge 108, Edge 120, Edge 180, Edge 240, Infinity]"

definition MONTH_LABELS :: "string list" where
  "MONTH_LABELS =
     [''1-3 bulan'', ''3-6 bulan'', ''6-9 bulan'', ''9-12 bulan'', ''1-1.5Y'', ''1.5-2Y'',
      ''2-3Y'', ''3-4Y'', ''4-5Y'', ''5-6Y'', ''6-7Y'', ''7-8Y'', ''8-9Y'', ''9-10Y'',
      ''10-15Y'', ''15-20Y'', ''> 20Y'']"

definition IRRBB_LABELS :: "string list" where
  "IRRBB_LABELS = LABEL_1M # MONTH_LABELS"

definition LCR_LABELS :: "string list" where
  "LCR_LABELS = [LABEL_LE30D, LABEL_GT30D]"

definition NSFR_LABELS :: "string list" where
  "NSFR_LABELS = [''<6M'', ''6-12M'', ''>12M'']"

definition edge_lt :: "edge \<Rightarrow> int \<Rightarrow> bool" where
  "edge_lt e x = (case e of Edge b \<Rightarrow> b < x | Infinity \<Rightarrow> False)"

definition le_edge :: "int \<Rightarrow> edge \<Rightarrow> bool" where
  "le_edge x e = (case e of Edge b \<Rightarrow> x \<le> b | Infinity \<Rightarrow> True)"

text \<open>
  \<open>pd.cut(x, bins, labels, right=True, include_lowest)\<close> on one value: the label of the
  interval \<open>(lo, hi]\<close> that holds \<open>x\<close>, the first interval closed on the left too when
  \<open>include_lowest\<close> is set, and \<open>None\<close> for pandas' NaN when no interval holds \<open>x\<close>.
\<close>

fun cut_bins :: "bool \<Rightarrow> edge list \<Rightarrow> string list \<Rightarrow> int \<Rightarrow> string option" where
  "cut_bins lowest (lo # hi # es) (l # ls) x =
     (if (edge_lt lo x \<or> (lowest \<and> lo = Edge x)) \<and> le_edge x hi then Some l
      else cut_bins False (hi # es) ls x)"
| "cut_bins lowest es ls x = None"

definition pd_cut :: "int \<Rightarrow> edge list \<Rightarrow> string list \<Rightarrow> bool \<Rightarrow> string option" where
  "pd_cut x bins labels include_lowest = cut_bins include_lowest bins labels x"

text \<open>\<open>.astype(str)\<close> on the result of the cut: NaN becomes the string \<open>nan\<close>.\<close>

definition astype_str :: "string option \<Rightarrow> string" where
  "astype_str c = (case c of None \<Rightarrow> ''nan'' | Some l \<Rightarrow> l)"

text \<open>The bucket column of the three aggregations, for a row's payment date.\<close>

definition irrbb_bucket :: "date \<Rightarrow> date \<Rightarrow> string" where
  "irrbb_bucket reporting_d pay_date =
     (let days = days_between pay_date reporting_d;
          months = months_between pay_date reporting_d
      in if days \<le> 30 then LABEL_1M
         else astype_str (pd_cut months MONTH_EDGES MONTH_LABELS True))"

definition lcr_bucket :: "date \<Rightarrow> date \<Rightarrow> string" where
  "lcr_bucket reporting_d pay_date =
     (if days_between pay_date reporting_d \<le> 30 then LABEL_LE30D else LABEL_GT30D)"

definition nsfr_bucket :: "date \<Rightarrow> date \<Rightarrow> string" where
  "nsfr_bucket reporting_d pay_date =
     (let months = months_between pay_date reporting_d
      in if months < 6 then ''<6M''
         else if months \<ge> 6 \<and> months \<le> 12 then ''6-12M''
         else if months > 12 then ''>12M''
         else ''>12M'')"

text \<open>
  \<open>BucketIRRBB(start_date, end_date).get_bucket()\<close> of \<open>bucket.py\<close>: its cut leaves
  \<open>include_lowest\<close> at the default \<open>False\<close>.  The result is a label, or NaN.
\<close>

definition BucketIRRBB_get_bucket :: "date \<Rightarrow> date \<Rightarrow> string option" where
  "BucketIRRBB_get_bucket start_d end_d =
     (if days_between end_d start_d \<le> 30 then Some LABEL_1M
      else pd_cut (months_between end_d start_d) MONTH_EDGES MONTH_LABELS False)"

definition BucketLCR_get_bucket :: "date \<Rightarrow> date \<Rightarrow> string" where
  "BucketLCR_get_bucket reporting_d end_d =
     (if days_between end_d reporting_d \<le> 30 then LABEL_LE30D else LABEL_GT30D)"

definition BucketNSFR_get_bucket :: "date \<Rightarrow> date \<Rightarrow> string" where
  "BucketNSFR_get_bucket reporting_d end_d =
     (let m = months_between end_d reporting_d
      in if m < 6 then ''<6M'' else if m \<le> 12 then ''6-12M'' else ''>12M'')"

section \<open>Aggregation\<close>

text \<open>
  A result frame: \<open>Tall\<close> has the columns \<open>bucket\<close> and \<open>value\<close> and one row per label;
  \<open>Flat\<close> has one row and one column per label.
\<close>

datatype frame = Tall "(string \<times> real) list" | Flat "(string \<times> real) list"

text \<open>\<open>df.groupby("bucket")["value"].sum()\<close>: the sum of the values of every label seen.\<close>

fun groupby_sum :: "(string \<times> real) list \<Rightarrow> (string \<rightharpoonup> real)" where
  "groupby_sum [] = Map.empty"
| "groupby_sum (kv # kvs) =
     (let g = groupby_sum kvs
      in g(fst kv \<mapsto> (case g (fst kv) of None \<Rightarrow> snd kv | Some s \<Rightarrow> snd kv + s)))"

text \<open>\<open>.reindex(labels, fill_value=0)\<close>.\<close>

definition reindex :: "string list \<Rightarrow> real \<Rightarrow> (string \<rightharpoonup> real) \<Rightarrow> (string \<times> real) list" where
  "reindex labels fill_value g =
     map (\<lambda>l. (l, case g l of None \<Rightarrow> fill_value | Some v \<Rightarrow> v)) labels"

definition empty_bucket_result :: "string \<Rightarrow> error + frame" where
  "empty_bucket_result bucket_type =
     (if bucket_type = ''irrbb'' then Inr (Tall (map (\<lambda>l. (l, 0)) (LABEL_1M # MONTH_LABELS)))
      else if bucket_type = ''lcr'' then Inr (Tall (map (\<lambda>l. (l, 0)) [LABEL_LE30D, LABEL_GT30D]))
      else if bucket_type = ''nsfr'' then Inr (Tall (map (\<lambda>l. (l, 0)) [''<6M'', ''6-12M'', ''>12M'']))
      else Inl InvalidBucketType)"

text \<open>The value column: the plain selection, and the two special ones of the flat frames.\<close>

definition select_value :: "string \<Rightarrow> row \<Rightarrow> real" where
  "select_value value_type r =
     (if value_type = ''principal'' then principal r
      else if value_type = ''interest'' then interest r
      else principal r + interest r)"

definition lcr_flat_value :: "string \<Rightarrow> string \<Rightarrow> row \<Rightarrow> real" where
  "lcr_flat_value value_type bucket r =
     (if value_type = ''principal'' then principal r
      else if value_type = ''interest'' then (if bucket = LABEL_LE30D then interest r else 0)
      else principal r + (if bucket = LABEL_LE30D then interest r else 0))"

definition nsfr_flat_value :: "string \<Rightarrow> row \<Rightarrow> real" where
  "nsfr_flat_value value_type r =
     (if value_type = ''principal'' then principal r
      else if value_type = ''interest'' then 0
      else principal r + interest r)"

text \<open>The six bucket operations of \<open>Amortization\<close>.\<close>

definition get_bucket_irrbb :: "loan \<Rightarrow> string \<Rightarrow> error + frame" where
  "get_bucket_irrbb L value_type =
     (case schedule L of
        Inl e \<Rightarrow> Inl e
      | Inr sched \<Rightarrow>
          if sched = [] then empty_bucket_result ''irrbb''
          else Inr (Tall (reindex (LABEL_1M # MONTH_LABELS) 0
                 (groupby_sum (map (\<lambda>r. (irrbb_bucket (reporting_date L) (payment_date r),
                                         select_value value_type r)) sched)))))"

definition get_bucket_lcr :: "loan \<Rightarrow> string \<Rightarrow> error + frame" where
  "get_bucket_lcr L value_type =
     (case schedule L of
        Inl e \<Rightarrow> Inl e
      | Inr sched \<Rightarrow>
          if sched = [] then empty_bucket_result ''lcr''
          else Inr (Tall (reindex [LABEL_LE30D, LABEL_GT30D] 0
                 (groupby_sum (map (\<lambda>r. (lcr_bucket (reporting_date L) (payment_date r),
                                         select_value value_type r)) sched)))))"

definition get_bucket_nsfr :: "loan \<Rightarrow> string \<Rightarrow> error + frame" where
  "get_bucket_nsfr L value_type =
     (case schedule L of
        Inl e \<Rightarrow> Inl e
      | Inr sched \<Rightarrow>
          if sched = [] then empty_bucket_result ''nsfr''
          else Inr (Tall (reindex [''<6M'', ''6-12M'', ''>12M''] 0
                 (groupby_sum (map (\<lambda>r. (nsfr_bucket (reporting_date L) (payment_date r),
                                         select_value value_type r)) sched)))))"

definition get_bucket_irrbb_flat :: "loan \<Rightarrow> string \<Rightarrow> error + frame" where
  "get_bucket_irrbb_flat L value_type =
     (case schedule L of
        Inl e \<Rightarrow> Inl e
      | Inr sched \<Rightarrow>
          if sched = [] then empty_bucket_result ''irrbb''
          else Inr (Flat (reindex (LABEL_1M # MONTH_LABELS) 0
                 (groupby_sum (map (\<lambda>r. (irrbb_bucket (reporting_date L) (payment_date r),
                                         select_value value_type r)) sched)))))"

definition get_bucket_lcr_flat :: "loan \<Rightarrow> string \<Rightarrow> error + frame" where
  "get_bucket_lcr_flat L value_type =
     (case schedule L of
        Inl e \<Rightarrow> Inl e
      | Inr sched \<Rightarrow>
          if sched = [] then empty_bucket_result ''lcr''
          else Inr (Flat (reindex [LABEL_LE30D, LABEL_GT30D] 0
                 (groupby_sum (map (\<lambda>r. (lcr_bucket (reporting_date L) (payment_date r),
                                         lcr_flat_value value_type
                                           (lcr_bucket (reporting_date L) (payment_date r)) r))
                    sched)))))"

definition get_bucket_nsfr_flat :: "loan \<Rightarrow> string \<Rightarrow> error + frame" where
  "get_bucket_nsfr_flat L value_type =
     (case schedule L of
        Inl e \<Rightarrow> Inl e
      | Inr sched \<Rightarrow>
          if sched = [] then empty_bucket_result ''nsfr''
          else Inr (Flat (reindex [''<6M'', ''6-12M'', ''>12M''] 0
                 (groupby_sum (map (\<lambda>r. (nsfr_bucket (reporting_date L) (payment_date r),
                                         nsfr_flat_value value_type r)) sched)))))"

section \<open>Properties of the aggregation\<close>

lemma groupby_sum_lookup:
  "(case groupby_sum kvs l of None \<Rightarrow> 0 | Some v \<Rightarrow> v) =
     sum_list (map snd (filter (\<lambda>kv. fst kv = l) kvs))"
  by (induction kvs) (auto simp: Let_def split: option.splits)

lemma reindex_groupby_sum:
  "reindex labels 0 (groupby_sum kvs) =
     map (\<lambda>l. (l, sum_list (map snd (filter (\<lambda>kv. fst kv = l) kvs)))) labels"
  by (simp add: reindex_def groupby_sum_lookup)

lemma sum_list_indicator:
  "distinct ls \<Longrightarrow>
   sum_list (map (\<lambda>l. if k = l then (v::real) else 0) ls) = (if k \<in> set ls then v else 0)"
  by (induction ls) auto

lemma sum_over_labels:
  assumes "distinct ls" and "\<forall>kv \<in> set (kvs :: ('a \<times> real) list). fst kv \<in> set ls"
  shows "sum_list (map (\<lambda>l. sum_list (map snd (filter (\<lambda>kv. fst kv = l) kvs))) ls)
           = sum_list (map snd kvs)"
  using assms(2)
proof (induction kvs)
  case Nil
  then show ?case by simp
next
  case (Cons kv kvs)
  have split: "sum_list (map snd (filter (\<lambda>x. fst x = l) (kv # kvs)))
      = (if fst kv = l then snd kv else 0) + sum_list (map snd (filter (\<lambda>x. fst x = l) kvs))" for l
    by simp
  have "sum_list (map (\<lambda>l. sum_list (map snd (filter (\<lambda>x. fst x = l) (kv # kvs)))) ls)
      = sum_list (map (\<lambda>l. if fst kv = l then snd kv else 0) ls)
        + sum_list (map (\<lambda>l. sum_list (map snd (filter (\<lambda>x. fst x = l) kvs))) ls)"
    unfolding split by (simp add: sum_list_addf)
  also have "sum_list (map (\<lambda>l. if fst kv = l then snd kv else 0) ls) = snd kv"
    using sum_list_indicator[OF assms(1)] Cons.prems by simp
  also have "sum_list (map (\<lambda>l. sum_list (map snd (filter (\<lambda>x. fst x = l) kvs))) ls)
      = sum_list (map snd kvs)"
    using Cons by simp
  finally show ?case by simp
qed

lemma sum_reindex_groupby:
  assumes "distinct ls" and "\<forall>kv \<in> set kvs. fst kv \<in> set ls"
  shows "sum_list (map snd (reindex ls 0 (groupby_sum kvs))) = sum_list (map snd kvs)"
  using sum_over_labels[OF assms] by (simp add: reindex_groupby_sum comp_def)

lemma distinct_IRRBB_LABELS: "distinct (LABEL_1M # MONTH_LABELS)"
  by (simp add: LABEL_1M_def le_sign_def MONTH_LABELS_def)

lemma distinct_LCR_LABELS: "distinct [LABEL_LE30D, LABEL_GT30D]"
  by (simp add: LABEL_LE30D_def LABEL_GT30D_def le_sign_def)

lemma cut_months_in_labels:
  "1 \<le> m \<Longrightarrow> \<exists>l. pd_cut m MONTH_EDGES MONTH_LABELS True = Some l \<and> l \<in> set MONTH_LABELS"
  by (simp add: pd_cut_def MONTH_EDGES_def MONTH_LABELS_def edge_lt_def le_edge_def)

lemma monthrange_days_le_31: "monthrange_days y m \<le> 31"
  by (simp add: monthrange_days_def)

lemma payment_date_not_before:
  assumes "valid_date reporting_d"
    and "p \<in> set (generate_payment_dates reporting_d end_d)"
  shows "1 \<le> month p \<and> month p \<le> 12 \<and> 0 \<le> months_between p reporting_d \<and> day p \<le> 31"
proof -
  define ym where "ym = (if day reporting_d \<ge> day end_d
                then next_month (year reporting_d, month reporting_d)
                else (year reporting_d, month reporting_d))"
  have mem: "p \<in> set (gen_loop (day end_d) end_d (fst ym) (snd ym))"
    using assms(2) by (simp add: generate_payment_dates_def ym_def Let_def)
  have rng: "1 \<le> snd ym" "snd ym \<le> 12"
    using assms(1) by (auto simp: ym_def valid_date_def next_month_def)
  have start: "year reporting_d * 12 + month reporting_d \<le> fst ym * 12 + snd ym"
    using assms(1) by (auto simp: ym_def valid_date_def next_month_def)
  have "day p = min (day end_d) (monthrange_days (year p) (month p))"
    using gen_loop_day[OF mem] .
  then have "day p \<le> 31" using monthrange_days_le_31[of "year p" "month p"] by simp
  with gen_loop_index[OF mem rng] start show ?thesis
    by (simp add: months_between_def)
qed

lemma same_month_days:
  "year p = year q \<Longrightarrow> month p = month q \<Longrightarrow> days_between p q = day p - day q"
  by (simp add: days_between_def toordinal_def)

lemma payment_date_months_ge_1:
  assumes "valid_date reporting_d"
    and "p \<in> set (generate_payment_dates reporting_d end_d)"
    and "\<not> days_between p reporting_d \<le> 30"
  shows "1 \<le> months_between p reporting_d"
proof (rule ccontr)
  assume "\<not> 1 \<le> months_between p reporting_d"
  with payment_date_not_before[OF assms(1,2)]
  have m0: "months_between p reporting_d = 0" and rng: "1 \<le> month p" "month p \<le> 12"
    and d: "day p \<le> 31"
    by auto
  have "1 \<le> month reporting_d" "month reporting_d \<le> 12" "1 \<le> day reporting_d"
    using assms(1) by (simp_all add: valid_date_def)
  with m0 rng have "year p = year reporting_d \<and> month p = month reporting_d"
    unfolding months_between_def by presburger
  then have "days_between p reporting_d = day p - day reporting_d"
    by (simp add: same_month_days)
  with d \<open>1 \<le> day reporting_d\<close> assms(3) show False by simp
qed

lemma irrbb_bucket_in_labels:
  assumes "valid_date reporting_d"
    and "p \<in> set (generate_payment_dates reporting_d end_d)"
  shows "irrbb_bucket reporting_d p \<in> set (LABEL_1M # MONTH_LABELS)"
proof (cases "days_between p reporting_d \<le> 30")
  case True
  then show ?thesis by (simp add: irrbb_bucket_def Let_def)
next
  case False
  from cut_months_in_labels[OF payment_date_months_ge_1[OF assms False]]
  obtain l where "pd_cut (months_between p reporting_d) MONTH_EDGES MONTH_LABELS True = Some l"
    and "l \<in> set MONTH_LABELS" by blast
  with False show ?thesis by (simp add: irrbb_bucket_def Let_def astype_str_def)
qed

lemma lcr_bucket_in_labels: "lcr_bucket reporting_d p \<in> set [LABEL_LE30D, LABEL_GT30D]"
  by (simp add: lcr_bucket_def)

lemma nsfr_bucket_in_labels: "nsfr_bucket reporting_d p \<in> set [''<6M'', ''6-12M'', ''>12M'']"
  by (simp add: nsfr_bucket_def Let_def)

lemma schedule_payment_dates:
  "schedule L = Inr rows \<Longrightarrow> r \<in> set rows \<Longrightarrow>
   payment_date r \<in> set (generate_payment_dates (reporting_date L) (end_date L))"
proof -
  assume s: "schedule L = Inr rows" and r: "r \<in> set rows"
  have "rows = [] \<or> map payment_date rows = generate_payment_dates (reporting_date L) (end_date L)"
    using s by (auto simp: schedule_def Let_def split: if_splits)
  with r show ?thesis by (metis empty_iff imageI list.set(1) set_map)
qed

lemma sum_empty_result: "sum_list (map snd (map (\<lambda>l. (l, 0::real)) ls)) = 0"
  by (induction ls) simp_all

lemma distinct_NSFR_LABELS: "distinct [''<6M'', ''6-12M'', ''>12M'']"
  by simp

text \<open>
  C6.  For a loan with a valid reporting date whose schedule is computed, each of the
  three tall results with the value mode \<open>total\<close> sums to the sum of
  \<open>principal + interest\<close> over the rows of the schedule, and every row's bucket label
  lies in the label set of its taxonomy, so the reindex step drops nothing.
\<close>

theorem tall_total_preserves_schedule_total:
  assumes "valid_date (reporting_date L)" and "schedule L = Inr rows"
  shows "\<exists>ei el en.
       get_bucket_irrbb L ''total'' = Inr (Tall ei)
     \<and> get_bucket_lcr L ''total'' = Inr (Tall el)
     \<and> get_bucket_nsfr L ''total'' = Inr (Tall en)
     \<and> sum_list (map snd ei) = sum_list (map (\<lambda>r. principal r + interest r) rows)
     \<and> sum_list (map snd el) = sum_list (map (\<lambda>r. principal r + interest r) rows)
     \<and> sum_list (map snd en) = sum_list (map (\<lambda>r. principal r + interest r) rows)
     \<and> (\<forall>r \<in> set rows.
           irrbb_bucket (reporting_date L) (payment_date r) \<in> set IRRBB_LABELS
         \<and> lcr_bucket (reporting_date L) (payment_date r) \<in> set LCR_LABELS
         \<and> nsfr_bucket (reporting_date L) (payment_date r) \<in> set NSFR_LABELS)"
proof -
  let ?tot = "\<lambda>r. principal r + interest r"
  let ?ki = "map (\<lambda>r. (irrbb_bucket (reporting_date L) (payment_date r),
                        select_value ''total'' r)) rows"
  let ?kl = "map (\<lambda>r. (lcr_bucket (reporting_date L) (payment_date r),
                        select_value ''total'' r)) rows"
  let ?kn = "map (\<lambda>r. (nsfr_bucket (reporting_date L) (payment_date r),
                        select_value ''total'' r)) rows"
  have sel: "select_value ''total'' = ?tot"
    by (rule ext) (simp add: select_value_def)
  have in_i: "\<forall>r \<in> set rows. irrbb_bucket (reporting_date L) (payment_date r)
                \<in> set (LABEL_1M # MONTH_LABELS)"
    using irrbb_bucket_in_labels[OF assms(1)] schedule_payment_dates[OF assms(2)] by blast
  have labels: "\<forall>r \<in> set rows.
           irrbb_bucket (reporting_date L) (payment_date r) \<in> set IRRBB_LABELS
         \<and> lcr_bucket (reporting_date L) (payment_date r) \<in> set LCR_LABELS
         \<and> nsfr_bucket (reporting_date L) (payment_date r) \<in> set NSFR_LABELS"
    using in_i lcr_bucket_in_labels nsfr_bucket_in_labels
    unfolding IRRBB_LABELS_def LCR_LABELS_def NSFR_LABELS_def by blast
  show ?thesis
  proof (cases "rows = []")
    case True
    then show ?thesis
      using assms(2)
      by (simp add: get_bucket_irrbb_def get_bucket_lcr_def get_bucket_nsfr_def
          empty_bucket_result_def comp_def)
  next
    case False
    have si: "sum_list (map snd (reindex (LABEL_1M # MONTH_LABELS) 0 (groupby_sum ?ki)))
        = sum_list (map ?tot rows)"
      using in_i by (subst sum_reindex_groupby[OF distinct_IRRBB_LABELS]) (simp_all add: sel comp_def)
    have sl: "sum_list (map snd (reindex [LABEL_LE30D, LABEL_GT30D] 0 (groupby_sum ?kl)))
        = sum_list (map ?tot rows)"
      using lcr_bucket_in_labels
      by (subst sum_reindex_groupby[OF distinct_LCR_LABELS]) (simp_all add: sel comp_def)
    have sn: "sum_list (map snd (reindex [''<6M'', ''6-12M'', ''>12M''] 0 (groupby_sum ?kn)))
        = sum_list (map ?tot rows)"
      using nsfr_bucket_in_labels
      by (subst sum_reindex_groupby[OF distinct_NSFR_LABELS]) (simp_all add: sel comp_def)
    show ?thesis
      using assms(2) False si sl sn labels
      by (simp add: get_bucket_irrbb_def get_bucket_lcr_def get_bucket_nsfr_def)
  qed
qed

lemma eval_annuity_lcr_total:
  "get_bucket_lcr annuity_example ''total'' =
     Inr (Tall [(LABEL_LE30D, 0), (LABEL_GT30D, 10167 / 100)])"
  unfolding get_bucket_lcr_def eval_annuity_example
  by (simp add: annuity_example_def reindex_def lcr_bucket_def select_value_def
      days_between_def toordinal_def days_before_year_def days_before_month_def
      DAYS_BEFORE_MONTH_def is_leap_def LABEL_LE30D_def LABEL_GT30D_def le_sign_def)

lemma eval_annuity_nsfr_total:
  "get_bucket_nsfr annuity_example ''total'' =
     Inr (Tall [(''<6M'', 10167 / 100), (''6-12M'', 0), (''>12M'', 0)])"
  unfolding get_bucket_nsfr_def eval_annuity_example
  by (simp add: annuity_example_def reindex_def nsfr_bucket_def select_value_def
      months_between_def)

theorem tall_total_preserves_schedule_total_witness:
  "valid_date (reporting_date annuity_example)
   \<and> sum_list (map (\<lambda>r. principal r + interest r) (rows_of (schedule annuity_example)))
       = 10167 / 100
   \<and> get_bucket_lcr annuity_example ''total'' =
       Inr (Tall [(LABEL_LE30D, 0), (LABEL_GT30D, 10167 / 100)])
   \<and> get_bucket_nsfr annuity_example ''total'' =
       Inr (Tall [(''<6M'', 10167 / 100), (''6-12M'', 0), (''>12M'', 0)])"
proof -
  have v: "valid_date (reporting_date annuity_example)"
    by (simp add: annuity_example_def valid_date_def monthrange_days_def)
  from tall_total_preserves_schedule_total[OF v eval_annuity_example]
  obtain el where "get_bucket_lcr annuity_example ''total'' = Inr (Tall el)"
    and "sum_list (map snd el) = sum_list (map (\<lambda>r. principal r + interest r)
          (rows_of (schedule annuity_example)))"
    by (auto simp: eval_annuity_example rows_of_def)
  then have "sum_list (map (\<lambda>r. principal r + interest r) (rows_of (schedule annuity_example)))
       = 10167 / 100"
    by (auto simp: eval_annuity_lcr_total)
  then show ?thesis using v eval_annuity_lcr_total eval_annuity_nsfr_total by simp
qed

lemma filter_sum_pairs:
  "sum_list (map snd (filter (\<lambda>kv. fst kv = l) (map (\<lambda>r. (b r, v r)) rows))) =
   sum_list (map v (filter (\<lambda>r. b r = l) rows))"
  by (induction rows) auto

lemma aggregate_by_label:
  "reindex labels 0 (groupby_sum (map (\<lambda>r. (b r, v r)) rows)) =
   map (\<lambda>l. (l, sum_list (map v (filter (\<lambda>r. b r = l) rows)))) labels"
  by (simp add: reindex_groupby_sum filter_sum_pairs)

lemma sum_filter_cong:
  "(\<And>x. P x \<Longrightarrow> f x = g x) \<Longrightarrow>
   sum_list (map f (filter P xs)) = (sum_list (map g (filter P xs)) :: real)"
  by (induction xs) auto

lemma LABEL_LE30D_neq_GT30D: "LABEL_LE30D \<noteq> LABEL_GT30D"
  by (simp add: LABEL_LE30D_def LABEL_GT30D_def le_sign_def)

lemma lcr_bucket_le_iff:
  "lcr_bucket rd p = LABEL_LE30D \<longleftrightarrow> days_between p rd \<le> 30"
  using LABEL_LE30D_neq_GT30D by (auto simp: lcr_bucket_def)

lemma lcr_bucket_gt_iff:
  "lcr_bucket rd p = LABEL_GT30D \<longleftrightarrow> \<not> days_between p rd \<le> 30"
  using LABEL_LE30D_neq_GT30D by (auto simp: lcr_bucket_def)

lemma nsfr_bucket_iffs:
  "nsfr_bucket rd p = ''<6M'' \<longleftrightarrow> months_between p rd < 6"
  "nsfr_bucket rd p = ''6-12M'' \<longleftrightarrow> 6 \<le> months_between p rd \<and> months_between p rd \<le> 12"
  "nsfr_bucket rd p = ''>12M'' \<longleftrightarrow> 12 < months_between p rd"
  by (auto simp: nsfr_bucket_def Let_def)

text \<open>
  C7.  For a loan with a non-empty schedule: the flat LCR frame with the value mode
  \<open>interest\<close> holds the interest of the rows at most 30 days out and 0 for the rows
  further out; with \<open>total\<close> it holds principal plus interest of the rows at most 30 days
  out and the principal alone of the others; the flat NSFR frame with \<open>interest\<close> is 0 in
  every bucket; and the three tall frames sum, per bucket, the plain value of each row:
  principal, interest, or principal plus interest.
\<close>

theorem flat_special_cases_and_plain_tall:
  assumes "schedule L = Inr rows" and "rows \<noteq> []"
  shows "get_bucket_lcr_flat L ''interest'' =
       Inr (Flat [(LABEL_LE30D, sum_list (map interest
                     (filter (\<lambda>r. days_between (payment_date r) (reporting_date L) \<le> 30) rows))),
                  (LABEL_GT30D, 0)])
     \<and> get_bucket_lcr_flat L ''total'' =
       Inr (Flat [(LABEL_LE30D, sum_list (map (\<lambda>r. principal r + interest r)
                     (filter (\<lambda>r. days_between (payment_date r) (reporting_date L) \<le> 30) rows))),
                  (LABEL_GT30D, sum_list (map principal
                     (filter (\<lambda>r. \<not> days_between (payment_date r) (reporting_date L) \<le> 30) rows)))])
     \<and> get_bucket_nsfr_flat L ''interest'' = Inr (Flat [(''<6M'', 0), (''6-12M'', 0), (''>12M'', 0)])
     \<and> get_bucket_lcr L vt =
       Inr (Tall [(LABEL_LE30D, sum_list (map
                     (\<lambda>r. if vt = ''principal'' then principal r
                          else if vt = ''interest'' then interest r
                          else principal r + interest r)
                     (filter (\<lambda>r. days_between (payment_date r) (reporting_date L) \<le> 30) rows))),
                  (LABEL_GT30D, sum_list (map
                     (\<lambda>r. if vt = ''principal'' then principal r
                          else if vt = ''interest'' then interest r
                          else principal r + interest r)
                     (filter (\<lambda>r. \<not> days_between (payment_date r) (reporting_date L) \<le> 30) rows)))])
     \<and> get_bucket_nsfr L vt =
       Inr (Tall [(''<6M'', sum_list (map
                     (\<lambda>r. if vt = ''principal'' then principal r
                          else if vt = ''interest'' then interest r
                          else principal r + interest r)
                     (filter (\<lambda>r. months_between (payment_date r) (reporting_date L) < 6) rows))),
                  (''6-12M'', sum_list (map
                     (\<lambda>r. if vt = ''principal'' then principal r
                          else if vt = ''interest'' then interest r
                          else principal r + interest r)
                     (filter (\<lambda>r. 6 \<le> months_between (payment_date r) (reporting_date L)
                                \<and> months_between (payment_date r) (reporting_date L) \<le> 12) rows))),
                  (''>12M'', sum_list (map
                     (\<lambda>r. if vt = ''principal'' then principal r
                          else if vt = ''interest'' then interest r
                          else principal r + interest r)
                     (filter (\<lambda>r. 12 < months_between (payment_date r) (reporting_date L)) rows)))])
     \<and> get_bucket_irrbb L vt =
       Inr (Tall (map (\<lambda>l. (l, sum_list (map
                     (\<lambda>r. if vt = ''principal'' then principal r
                          else if vt = ''interest'' then interest r
                          else principal r + interest r)
                     (filter (\<lambda>r. irrbb_bucket (reporting_date L) (payment_date r) = l) rows))))
              IRRBB_LABELS))"
proof -
  let ?days = "\<lambda>r. days_between (payment_date r) (reporting_date L)"
  let ?lb = "\<lambda>r. lcr_bucket (reporting_date L) (payment_date r)"
  have sel: "select_value vt = (\<lambda>r. if vt = ''principal'' then principal r
                          else if vt = ''interest'' then interest r
                          else principal r + interest r)"
    by (rule ext) (simp add: select_value_def)
  have i_le: "sum_list (map (\<lambda>r. lcr_flat_value ''interest'' (?lb r) r)
                  (filter (\<lambda>r. ?lb r = LABEL_LE30D) rows))
      = sum_list (map interest (filter (\<lambda>r. ?lb r = LABEL_LE30D) rows))"
    by (rule sum_filter_cong) (simp add: lcr_flat_value_def)
  have i_gt: "sum_list (map (\<lambda>r. lcr_flat_value ''interest'' (?lb r) r)
                  (filter (\<lambda>r. ?lb r = LABEL_GT30D) rows))
      = sum_list (map (\<lambda>r. 0) (filter (\<lambda>r. ?lb r = LABEL_GT30D) rows))"
    using LABEL_LE30D_neq_GT30D by (intro sum_filter_cong) (simp add: lcr_flat_value_def)
  have t_le: "sum_list (map (\<lambda>r. lcr_flat_value ''total'' (?lb r) r)
                  (filter (\<lambda>r. ?lb r = LABEL_LE30D) rows))
      = sum_list (map (\<lambda>r. principal r + interest r) (filter (\<lambda>r. ?lb r = LABEL_LE30D) rows))"
    by (rule sum_filter_cong) (simp add: lcr_flat_value_def)
  have t_gt: "sum_list (map (\<lambda>r. lcr_flat_value ''total'' (?lb r) r)
                  (filter (\<lambda>r. ?lb r = LABEL_GT30D) rows))
      = sum_list (map principal (filter (\<lambda>r. ?lb r = LABEL_GT30D) rows))"
    using LABEL_LE30D_neq_GT30D by (intro sum_filter_cong) (simp add: lcr_flat_value_def)
  have c1: "get_bucket_lcr_flat L ''interest'' =
       Inr (Flat [(LABEL_LE30D, sum_list (map interest (filter (\<lambda>r. ?days r \<le> 30) rows))),
                  (LABEL_GT30D, 0)])"
    using assms i_le i_gt
    by (simp add: get_bucket_lcr_flat_def aggregate_by_label lcr_bucket_le_iff lcr_bucket_gt_iff)
  have c2: "get_bucket_lcr_flat L ''total'' =
       Inr (Flat [(LABEL_LE30D, sum_list (map (\<lambda>r. principal r + interest r)
                     (filter (\<lambda>r. ?days r \<le> 30) rows))),
                  (LABEL_GT30D, sum_list (map principal (filter (\<lambda>r. \<not> ?days r \<le> 30) rows)))])"
    using assms t_le t_gt
    by (simp add: get_bucket_lcr_flat_def aggregate_by_label lcr_bucket_le_iff lcr_bucket_gt_iff)
  have c3: "get_bucket_nsfr_flat L ''interest'' =
       Inr (Flat [(''<6M'', 0), (''6-12M'', 0), (''>12M'', 0)])"
    using assms
    by (simp add: get_bucket_nsfr_flat_def aggregate_by_label nsfr_flat_value_def)
  have c4: "get_bucket_lcr L vt =
       Inr (Tall [(LABEL_LE30D, sum_list (map (select_value vt)
                     (filter (\<lambda>r. ?days r \<le> 30) rows))),
                  (LABEL_GT30D, sum_list (map (select_value vt)
                     (filter (\<lambda>r. \<not> ?days r \<le> 30) rows)))])"
    using assms
    by (simp add: get_bucket_lcr_def aggregate_by_label lcr_bucket_le_iff lcr_bucket_gt_iff)
  have c5: "get_bucket_nsfr L vt =
       Inr (Tall [(''<6M'', sum_list (map (select_value vt)
                     (filter (\<lambda>r. months_between (payment_date r) (reporting_date L) < 6) rows))),
                  (''6-12M'', sum_list (map (select_value vt)
                     (filter (\<lambda>r. 6 \<le> months_between (payment_date r) (reporting_date L)
                                \<and> months_between (payment_date r) (reporting_date L) \<le> 12) rows))),
                  (''>12M'', sum_list (map (select_value vt)
                     (filter (\<lambda>r. 12 < months_between (payment_date r) (reporting_date L)) rows)))])"
    using assms
    by (simp add: get_bucket_nsfr_def aggregate_by_label nsfr_bucket_iffs)
  have c6: "get_bucket_irrbb L vt =
       Inr (Tall (map (\<lambda>l. (l, sum_list (map (select_value vt)
                     (filter (\<lambda>r. irrbb_bucket (reporting_date L) (payment_date r) = l) rows))))
              IRRBB_LABELS))"
    using assms
    by (simp add: get_bucket_irrbb_def aggregate_by_label IRRBB_LABELS_def)
  show ?thesis
    using c1 c2 c3 c4 c5 c6 unfolding sel by (intro conjI)
qed

definition lcr_example :: loan where
  "lcr_example =
     \<lparr>reporting_date = \<lparr>year = 2024, month = 1, day = 15\<rparr>,
      end_date = \<lparr>year = 2024, month = 3, day = 20\<rparr>,
      outstanding = 1000, interest_rate = 12 / 100,
      installment = ''no'', loan_method = ''annuity''\<rparr>"

lemma eval_lcr_example:
  "schedule lcr_example =
     Inr [\<lparr>period = 1, payment_date = \<lparr>year = 2024, month = 1, day = 20\<rparr>,
           payment = 10, principal = 0, interest = 10, remaining_balance = 1000\<rparr>,
          \<lparr>period = 2, payment_date = \<lparr>year = 2024, month = 2, day = 20\<rparr>,
           payment = 10, principal = 0, interest = 10, remaining_balance = 1000\<rparr>,
          \<lparr>period = 3, payment_date = \<lparr>year = 2024, month = 3, day = 20\<rparr>,
           payment = 1010, principal = 1000, interest = 10, remaining_balance = 0\<rparr>]"
  by (simp add: lcr_example_def eval_dates eval_schedule)

lemmas eval_days = days_between_def toordinal_def days_before_year_def days_before_month_def
  DAYS_BEFORE_MONTH_def is_leap_def months_between_def

theorem flat_special_cases_and_plain_tall_witness:
  "rows_of (schedule lcr_example) \<noteq> []
   \<and> get_bucket_lcr_flat lcr_example ''interest'' =
       Inr (Flat [(LABEL_LE30D, 10), (LABEL_GT30D, 0)])
   \<and> get_bucket_lcr_flat lcr_example ''total'' =
       Inr (Flat [(LABEL_LE30D, 10), (LABEL_GT30D, 1000)])
   \<and> get_bucket_nsfr_flat lcr_example ''interest'' =
       Inr (Flat [(''<6M'', 0), (''6-12M'', 0), (''>12M'', 0)])
   \<and> get_bucket_lcr lcr_example ''interest'' =
       Inr (Tall [(LABEL_LE30D, 10), (LABEL_GT30D, 20)])
   \<and> get_bucket_nsfr lcr_example ''interest'' =
       Inr (Tall [(''<6M'', 30), (''6-12M'', 0), (''>12M'', 0)])"
proof -
  have ne: "[\<lparr>period = 1, payment_date = \<lparr>year = 2024, month = 1, day = 20\<rparr>,
           payment = 10, principal = 0, interest = 10, remaining_balance = 1000\<rparr>,
          \<lparr>period = 2, payment_date = \<lparr>year = 2024, month = 2, day = 20\<rparr>,
           payment = 10, principal = 0, interest = 10, remaining_balance = 1000\<rparr>,
          \<lparr>period = 3, payment_date = \<lparr>year = 2024, month = 3, day = 20\<rparr>,
           payment = (1010::real), principal = 1000, interest = 10, remaining_balance = 0\<rparr>] \<noteq> []"
    by simp
  have rd: "reporting_date lcr_example = \<lparr>year = 2024, month = 1, day = 15\<rparr>"
    by (simp add: lcr_example_def)
  have ne': "rows_of (schedule lcr_example) \<noteq> []"
    by (simp add: eval_lcr_example rows_of_def)
  show ?thesis
    using flat_special_cases_and_plain_tall[OF eval_lcr_example ne, of "''interest''"] ne'
    unfolding rd by (simp add: eval_days)
qed

section \<open>The empty date range and the error cases\<close>

definition empty_range_example :: loan where
  "empty_range_example =
     \<lparr>reporting_date = \<lparr>year = 2024, month = 1, day = 1\<rparr>,
      end_date = \<lparr>year = 2024, month = 1, day = 1\<rparr>,
      outstanding = 1000, interest_rate = 12 / 100,
      installment = ''maybe'', loan_method = ''foo''\<rparr>"


lemma bucket_ops_empty_range:
  assumes "date_le (end_date L) (reporting_date L)"
  shows "get_bucket_irrbb L vt = Inr (Tall (map (\<lambda>l. (l, 0)) IRRBB_LABELS))"
    and "get_bucket_lcr L vt = Inr (Tall (map (\<lambda>l. (l, 0)) LCR_LABELS))"
    and "get_bucket_nsfr L vt = Inr (Tall (map (\<lambda>l. (l, 0)) NSFR_LABELS))"
    and "get_bucket_irrbb_flat L vt = Inr (Tall (map (\<lambda>l. (l, 0)) IRRBB_LABELS))"
    and "get_bucket_lcr_flat L vt = Inr (Tall (map (\<lambda>l. (l, 0)) LCR_LABELS))"
    and "get_bucket_nsfr_flat L vt = Inr (Tall (map (\<lambda>l. (l, 0)) NSFR_LABELS))"
  using schedule_empty_range[OF assms]
  by (simp_all add: get_bucket_irrbb_def get_bucket_lcr_def get_bucket_nsfr_def
      get_bucket_irrbb_flat_def get_bucket_lcr_flat_def get_bucket_nsfr_flat_def
      empty_bucket_result_def IRRBB_LABELS_def LCR_LABELS_def NSFR_LABELS_def)

text \<open>
  C8.  On the loan with \<open>end_date = reporting_date = 2024-01-01\<close> the three flat
  operations return the tall frame of \<open>_empty_bucket_result\<close> (one row per label, columns
  \<open>bucket\<close> and \<open>value\<close>), not a frame of one row with one column per label, while on a
  loan with a schedule they return the flat frame.
\<close>

theorem flat_empty_result_is_tall:
  "date_le (end_date empty_range_example) (reporting_date empty_range_example)
   \<and> get_bucket_lcr_flat empty_range_example ''principal'' =
       Inr (Tall [(LABEL_LE30D, 0), (LABEL_GT30D, 0)])
   \<and> get_bucket_nsfr_flat empty_range_example ''principal'' =
       Inr (Tall [(''<6M'', 0), (''6-12M'', 0), (''>12M'', 0)])
   \<and> get_bucket_irrbb_flat empty_range_example ''principal'' =
       Inr (Tall (map (\<lambda>l. (l, 0)) IRRBB_LABELS))
   \<and> get_bucket_lcr_flat lcr_example ''principal'' =
       Inr (Flat [(LABEL_LE30D, 0), (LABEL_GT30D, 1000)])"
proof -
  have e: "date_le (end_date empty_range_example) (reporting_date empty_range_example)"
    by (simp add: empty_range_example_def date_le_def)
  have "get_bucket_lcr_flat lcr_example ''principal'' =
       Inr (Flat [(LABEL_LE30D, 0), (LABEL_GT30D, 1000)])"
    unfolding get_bucket_lcr_flat_def eval_lcr_example
    by (simp add: lcr_example_def reindex_def lcr_bucket_def lcr_flat_value_def eval_days
        LABEL_LE30D_def LABEL_GT30D_def le_sign_def)
  with e bucket_ops_empty_range(4-6)[OF e, of "''principal''"] show ?thesis
    by (simp add: LCR_LABELS_def NSFR_LABELS_def)
qed

text \<open>
  C5.  A payment date 45 days after the reference date, in the next calendar month:
  the classifier of the aggregation gives \<open>1-3 bulan\<close>; \<open>BucketIRRBB.get_bucket\<close>,
  whose cut does not include the lowest edge, gives NaN.
\<close>

theorem standalone_irrbb_month_one_is_nan:
  "days_between \<lparr>year = 2024, month = 2, day = 29\<rparr> \<lparr>year = 2024, month = 1, day = 15\<rparr> = 45
   \<and> months_between \<lparr>year = 2024, month = 2, day = 29\<rparr> \<lparr>year = 2024, month = 1, day = 15\<rparr> = 1
   \<and> irrbb_bucket \<lparr>year = 2024, month = 1, day = 15\<rparr> \<lparr>year = 2024, month = 2, day = 29\<rparr>
       = ''1-3 bulan''
   \<and> BucketIRRBB_get_bucket \<lparr>year = 2024, month = 1, day = 15\<rparr>
        \<lparr>year = 2024, month = 2, day = 29\<rparr> = None"
  by (simp add: irrbb_bucket_def BucketIRRBB_get_bucket_def eval_days pd_cut_def
      MONTH_EDGES_def MONTH_LABELS_def edge_lt_def le_edge_def astype_str_def)








end
